theory Spec2Isabelle
  imports Complex_Main
begin

section \<open>Command payloads and Python's conversions\<close>

text \<open>
  A \<open>cmd\<close> event carries a JSON object. Its values are modelled by \<open>jval\<close>; the
  object itself is an association list read with \<open>dict_get\<close>, the model of
  \<^verbatim>\<open>data.get(key, default)\<close>. A finite float is given by its value, a
  real number; the tokens NaN and Infinity, which Python's JSON reader accepts,
  are separate constructors. A string is a sequence of code points below 256
  (a \<open>char\<close> is its code point); a dictionary is read at the first pair for a
  key.
\<close>

datatype jval =
    JNull
  | JBool bool
  | JInt int
  | JFloat real
  | JNaN
  | JInf bool
  | JStr string
  | JArr "jval list"
  | JObj "(string \<times> jval) list"

type_synonym payload = "(string \<times> jval) list"

datatype error = ValueError | TypeError | OverflowError

definition dict_get :: "payload \<Rightarrow> string \<Rightarrow> jval \<Rightarrow> jval" where
  "dict_get data k dflt = (case map_of data k of None \<Rightarrow> dflt | Some v \<Rightarrow> v)"

text \<open>\<^verbatim>\<open>int(x)\<close> on a float truncates towards zero.\<close>

definition int_of_float :: "real \<Rightarrow> int" where
  "int_of_float x = (if 0 \<le> x then \<lfloor>x\<rfloor> else \<lceil>x\<rceil>)"

text \<open>
  \<^verbatim>\<open>int(s)\<close> on a string: surrounding white space is stripped, one sign is
  allowed, then decimal digits, where single underscores may separate digits.
  CPython first replaces every white-space code point from 127 on by a blank
  (below 256 these are U+0085 and U+00A0) and then skips, at both ends, only
  the C white space: code points 9 to 13 and 32. The separators 28 to 31 are
  therefore not stripped, and no code point from 127 to 255 is a decimal digit.
\<close>

definition is_space :: "char \<Rightarrow> bool" where
  "is_space c =
     (let n = (of_char c :: nat) in (9 \<le> n \<and> n \<le> 13) \<or> n = 32 \<or> n = 133 \<or> n = 160)"

definition strip :: "string \<Rightarrow> string" where
  "strip s = rev (dropWhile is_space (rev (dropWhile is_space s)))"

definition digit_of :: "char \<Rightarrow> int option" where
  "digit_of c = (let n = (of_char c :: nat) in
     if 48 \<le> n \<and> n \<le> 57 then Some (int n - 48) else None)"

fun parse_digits :: "string \<Rightarrow> int \<Rightarrow> int option" where
  "parse_digits [] acc = Some acc"
| "parse_digits (c # cs) acc =
     (if c = CHR ''_'' then
        (case cs of
           [] \<Rightarrow> None
         | d # ds \<Rightarrow> (case digit_of d of
                        None \<Rightarrow> None
                      | Some v \<Rightarrow> parse_digits ds (acc * 10 + v)))
      else (case digit_of c of
              None \<Rightarrow> None
            | Some v \<Rightarrow> parse_digits cs (acc * 10 + v)))"

text \<open>
  CPython refuses a decimal string of more than 4300 digits (underscores not
  counted) with a \<open>ValueError\<close>.
\<close>

definition max_str_digits :: nat where
  "max_str_digits = 4300"

definition parse_unsigned :: "string \<Rightarrow> int option" where
  "parse_unsigned s =
     (if max_str_digits < length (filter (\<lambda>c. digit_of c \<noteq> None) s) then None
      else (case s of
              [] \<Rightarrow> None
            | c # cs \<Rightarrow> (case digit_of c of None \<Rightarrow> None | Some v \<Rightarrow> parse_digits cs v)))"

definition int_of_str :: "string \<Rightarrow> int option" where
  "int_of_str s =
     (case strip s of
        [] \<Rightarrow> None
      | c # cs \<Rightarrow>
          if c = CHR ''-'' then map_option uminus (parse_unsigned cs)
          else if c = CHR ''+'' then parse_unsigned cs
          else parse_unsigned (c # cs))"

fun py_int :: "jval \<Rightarrow> error + int" where
  "py_int JNull = Inl TypeError"
| "py_int (JBool b) = Inr (if b then 1 else 0)"
| "py_int (JInt i) = Inr i"
| "py_int (JFloat x) = Inr (int_of_float x)"
| "py_int JNaN = Inl ValueError"
| "py_int (JInf _) = Inl OverflowError"
| "py_int (JStr s) = (case int_of_str s of None \<Rightarrow> Inl ValueError | Some i \<Rightarrow> Inr i)"
| "py_int (JArr _) = Inl TypeError"
| "py_int (JObj _) = Inl TypeError"

text \<open>\<^verbatim>\<open>bool(x)\<close>: Python's truth value of a JSON value.\<close>

fun py_bool :: "jval \<Rightarrow> bool" where
  "py_bool JNull = False"
| "py_bool (JBool b) = b"
| "py_bool (JInt i) = (i \<noteq> 0)"
| "py_bool (JFloat x) = (x \<noteq> 0)"
| "py_bool JNaN = True"
| "py_bool (JInf _) = True"
| "py_bool (JStr s) = (s \<noteq> [])"
| "py_bool (JArr xs) = (xs \<noteq> [])"
| "py_bool (JObj kvs) = (kvs \<noteq> [])"

section \<open>Floats\<close>

text \<open>
  A Python float is an IEEE 754 double: a finite value or an infinity (no
  operation of the timer yields a NaN). \<open>fl x\<close> is the result of an operation
  whose exact value is \<open>x\<close>: \<open>x\<close> rounded to the nearest double, ties to the even
  significand, and an infinity when the rounded value reaches \<open>2 ^ 1024\<close>. The
  doubles of a binade \<open>2 ^ e \<le> \<bar>x\<bar> < 2 ^ (e + 1)\<close> are the multiples of
  \<open>2 ^ (e - 52)\<close>; below \<open>2 ^ (- 1022)\<close> they are the multiples of \<open>2 ^ (- 1074)\<close>.
\<close>

datatype pyfloat = Fin real | PInf | NInf

definition round_half_even :: "real \<Rightarrow> int" where
  "round_half_even q =
     (let f = \<lfloor>q\<rfloor>; d = q - of_int f in
      if d < 1 / 2 then f else if 1 / 2 < d then f + 1 else if even f then f else f + 1)"

definition fl :: "real \<Rightarrow> pyfloat" where
  "fl x =
     (if x = 0 then Fin 0
      else
        (let e = max \<lfloor>log 2 \<bar>x\<bar>\<rfloor> (- 1022);
             u = 2 powi (e - 52);
             r = of_int (round_half_even (x / u)) * u
         in if 2 ^ 1024 \<le> \<bar>r\<bar> then (if 0 < x then PInf else NInf) else Fin r))"

text \<open>
  An \<open>int\<close> operand of a float operation is converted to a float first, with
  the same rounding; the conversion raises \<open>OverflowError\<close> where the result
  would be an infinity.
\<close>

definition float_of_int :: "int \<Rightarrow> error + real" where
  "float_of_int k = (case fl (of_int k) of Fin r \<Rightarrow> Inr r | _ \<Rightarrow> Inl OverflowError)"

text \<open>Sum and difference of a finite float and a float.\<close>

fun float_add :: "real \<Rightarrow> pyfloat \<Rightarrow> pyfloat" where
  "float_add a (Fin b) = fl (a + b)"
| "float_add a PInf = PInf"
| "float_add a NInf = NInf"

fun float_sub :: "real \<Rightarrow> pyfloat \<Rightarrow> pyfloat" where
  "float_sub a (Fin b) = fl (a - b)"
| "float_sub a PInf = NInf"
| "float_sub a NInf = PInf"

text \<open>\<^verbatim>\<open>int(x)\<close> and \<^verbatim>\<open>x < 0\<close> on a float.\<close>

fun py_int_float :: "pyfloat \<Rightarrow> error + int" where
  "py_int_float (Fin x) = Inr (int_of_float x)"
| "py_int_float PInf = Inl OverflowError"
| "py_int_float NInf = Inl OverflowError"

fun float_lt0 :: "pyfloat \<Rightarrow> bool" where
  "float_lt0 (Fin x) = (x < 0)"
| "float_lt0 PInf = False"
| "float_lt0 NInf = True"

section \<open>The timer state\<close>

record bell =
  enabled :: bool
  at_sec :: int
  count :: int
  triggered :: bool

record timer_state =
  running :: bool
  paused :: bool
  total_sec :: int
  remaining_sec :: int
  elapsed_sec :: int
  bells :: "bell list"
  over :: bool

text \<open>
  The module's globals: the dictionary \<open>state\<close>, and the three variables of the
  timer task. \<open>timer_task\<close> is \<open>None\<close> for Python's \<^verbatim>\<open>None\<close>, \<open>Some True\<close> for a
  scheduled \<open>timer_loop\<close> task and \<open>Some False\<close> for one that was cancelled or
  has ended with an exception. \<open>start_wall\<close> is a float, given by its value.
  \<open>elapsed_at_pause\<close> holds an \<open>int\<close> (a copy of \<open>elapsed_sec\<close>) or the float
  \<open>0.0\<close>, which acts as the \<open>int\<close> \<open>0\<close> in the one sum that reads it, so it is
  an integer.
\<close>

record sys =
  state :: timer_state
  timer_task :: "bool option"
  start_wall :: real
  elapsed_at_pause :: int

definition init_state :: timer_state where
  "init_state =
     \<lparr> running = False, paused = False, total_sec = 3 * 60, remaining_sec = 3 * 60,
       elapsed_sec = 0,
       bells =
         [ \<lparr> enabled = True, at_sec = 60, count = 1, triggered = False \<rparr>,
           \<lparr> enabled = True, at_sec = 120, count = 2, triggered = False \<rparr>,
           \<lparr> enabled = True, at_sec = 180, count = 3, triggered = False \<rparr> ],
       over = False \<rparr>"

definition init_sys :: sys where
  "init_sys = \<lparr> state = init_state, timer_task = None, start_wall = 0, elapsed_at_pause = 0 \<rparr>"

text \<open>
  One \<^verbatim>\<open>sio.emit("state", payload)\<close>: the snapshot sent, and the \<open>fire_bells\<close>
  entry of the payload when it has one.
\<close>

datatype emission = Emit timer_state "int list option"

fun fire_bells :: "emission \<Rightarrow> int list option" where
  "fire_bells (Emit _ fb) = fb"

definition broadcast_state :: "sys \<Rightarrow> emission" where
  "broadcast_state s = Emit (state s) None"

section \<open>The timer loop\<close>

text \<open>
  The scan of \<open>timer_loop\<close> over \<^verbatim>\<open>enumerate(state["bells"])\<close>: \<open>e\<close> is
  \<^verbatim>\<open>int(elapsed)\<close>, the third argument is \<open>bells_fired\<close> so far.
\<close>

fun scan_bells :: "int \<Rightarrow> bell list \<Rightarrow> int list \<Rightarrow> bell list \<times> int list" where
  "scan_bells e [] bells_fired = ([], bells_fired)"
| "scan_bells e (b # bs) bells_fired =
     (if enabled b \<and> \<not> triggered b then
        (if at_sec b \<le> e then
           (case scan_bells e bs (bells_fired @ [count b]) of
              (bs', fired) \<Rightarrow> (b\<lparr>triggered := True\<rparr> # bs', fired))
         else (case scan_bells e bs bells_fired of (bs', fired) \<Rightarrow> (b # bs', fired)))
      else (case scan_bells e bs bells_fired of (bs', fired) \<Rightarrow> (b # bs', fired)))"

text \<open>
  One iteration of the \<^verbatim>\<open>while\<close> body of \<open>timer_loop\<close>, after the sleep, at
  wall-clock reading \<open>now\<close>. The body has no suspension point before its emit, so
  it runs as one step. It returns the globals as the iteration leaves them,
  and the payload emitted or the exception raised. The sum of line 108 and
  the difference of line 109 convert their \<open>int\<close> operand and can raise before
  anything is written; \<^verbatim>\<open>int(elapsed)\<close> raises on an infinity before the first
  write; \<^verbatim>\<open>int(remaining)\<close> raises on an infinity after \<open>elapsed_sec\<close> has
  been written.
\<close>

definition timer_loop_body :: "real \<Rightarrow> sys \<Rightarrow> sys \<times> (error + emission)" where
  "timer_loop_body now s =
     (case float_of_int (elapsed_at_pause s) of
        Inl err \<Rightarrow> (s, Inl err)
      | Inr eap \<Rightarrow>
          (let elapsed = float_add eap (fl (now - start_wall s)) in
           case float_of_int (total_sec (state s)) of
             Inl err \<Rightarrow> (s, Inl err)
           | Inr tot \<Rightarrow>
               (let remaining = float_sub tot elapsed in
                case py_int_float elapsed of
                  Inl err \<Rightarrow> (s, Inl err)
                | Inr e \<Rightarrow>
                    (let s1 = s\<lparr> state := (state s)\<lparr> elapsed_sec := e \<rparr> \<rparr> in
                     case py_int_float remaining of
                       Inl err \<Rightarrow> (s1, Inl err)
                     | Inr r \<Rightarrow>
                         (let st2 = (state s1)\<lparr> remaining_sec := r,
                                                 over := float_lt0 remaining \<rparr>
                          in case scan_bells e (bells st2) [] of
                               (bs, bells_fired) \<Rightarrow>
                                 (let st3 = st2\<lparr> bells := bs \<rparr>
                                  in (s\<lparr> state := st3 \<rparr>,
                                      Inr (Emit st3 (if bells_fired \<noteq> [] then Some bells_fired
                                                     else None)))))))))"

section \<open>The command handler\<close>

definition cancel_task :: "bool option \<Rightarrow> bool option" where
  "cancel_task t = (case t of None \<Rightarrow> None | Some _ \<Rightarrow> Some False)"

definition clear_triggered :: "bell list \<Rightarrow> bell list" where
  "clear_triggered bs = map (\<lambda>b. b\<lparr>triggered := False\<rparr>) bs"

text \<open>
  The handler \<open>cmd\<close>, at wall-clock reading \<open>now\<close>. It returns the globals after
  the call and what it emitted, or the exception that \<^verbatim>\<open>int(...)\<close> raised. Every
  conversion stands before the first write of its branch, so an exception leaves
  the globals as they were.
\<close>

definition cmd :: "payload \<Rightarrow> real \<Rightarrow> sys \<Rightarrow> error + (sys \<times> emission list)" where
  "cmd data now s =
     (let action = dict_get data ''action'' JNull; st = state s in
      if action = JStr ''start'' then
        (if \<not> running st then
           (let s' = s\<lparr> state := st\<lparr> running := True, paused := False \<rparr>,
                        timer_task := Some True,
                        start_wall := now,
                        elapsed_at_pause := elapsed_sec st \<rparr>
            in Inr (s', [broadcast_state s']))
         else if paused st then
           (let s' = s\<lparr> state := st\<lparr> paused := False \<rparr>,
                        timer_task := Some True,
                        start_wall := now,
                        elapsed_at_pause := elapsed_sec st \<rparr>
            in Inr (s', [broadcast_state s']))
         else Inr (s, [broadcast_state s]))
      else if action = JStr ''pause'' then
        (if running st \<and> \<not> paused st then
           (let s' = s\<lparr> state := st\<lparr> paused := True \<rparr>,
                        timer_task := cancel_task (timer_task s),
                        elapsed_at_pause := elapsed_sec st \<rparr>
            in Inr (s', [broadcast_state s']))
         else Inr (s, [broadcast_state s]))
      else if action = JStr ''reset'' then
        (let s' = s\<lparr> state := st\<lparr> running := False, paused := False, elapsed_sec := 0,
                                   remaining_sec := total_sec st, over := False,
                                   bells := clear_triggered (bells st) \<rparr>,
                     timer_task := cancel_task (timer_task s),
                     elapsed_at_pause := 0 \<rparr>
         in Inr (s', [broadcast_state s']))
      else if action = JStr ''set_total'' then
        (if \<not> running st \<or> paused st then
           (case py_int (dict_get data ''minutes'' (JInt 3)) of
              Inl err \<Rightarrow> Inl err
            | Inr mins \<Rightarrow>
                (case py_int (dict_get data ''seconds'' (JInt 0)) of
                   Inl err \<Rightarrow> Inl err
                 | Inr secs \<Rightarrow>
                     (let total = mins * 60 + secs in
                      if total > 0 then
                        (let s' = s\<lparr> state := st\<lparr> total_sec := total, remaining_sec := total,
                                                   elapsed_sec := 0,
                                                   bells := clear_triggered (bells st) \<rparr>,
                                     elapsed_at_pause := 0 \<rparr>
                         in Inr (s', [broadcast_state s']))
                      else Inr (s, [broadcast_state s]))))
         else Inr (s, [broadcast_state s]))
      else if action = JStr ''set_bell'' then
        (case py_int (dict_get data ''index'' (JInt 0)) of
           Inl err \<Rightarrow> Inl err
         | Inr idx \<Rightarrow>
             if 0 \<le> idx \<and> idx < int (length (bells st)) then
               (case py_int (dict_get data ''minutes'' (JInt 0)) of
                  Inl err \<Rightarrow> Inl err
                | Inr mins \<Rightarrow>
                    (case py_int (dict_get data ''seconds'' (JInt 0)) of
                       Inl err \<Rightarrow> Inl err
                     | Inr secs \<Rightarrow>
                         (let b = bells st ! nat idx;
                              b' = b\<lparr> at_sec := mins * 60 + secs,
                                     enabled := py_bool (dict_get data ''enabled'' (JBool True)),
                                     triggered := False \<rparr>;
                              s' = s\<lparr> state := st\<lparr> bells := (bells st)[nat idx := b'] \<rparr> \<rparr>
                          in Inr (s', [broadcast_state s']))))
             else Inr (s, [broadcast_state s]))
      else if action = JStr ''manual_bell'' then
        (case py_int (dict_get data ''count'' (JInt 1)) of
           Inl err \<Rightarrow> Inl err
         | Inr cnt \<Rightarrow> Inr (s, [Emit (state s) (Some [cnt])]))
      else Inr (s, [broadcast_state s]))"

section \<open>Runs of the server\<close>

text \<open>
  The server's event loop interleaves calls of \<open>cmd\<close> with iterations of the
  timer loop, each at some reading of the wall clock (the clock of
  \<^verbatim>\<open>time.time()\<close> may step back, so the readings are in no order). An
  iteration happens only for a task that was not cancelled and whose loop
  condition \<^verbatim>\<open>state["running"] and not state["paused"]\<close> holds. A command that
  raises leaves the globals unchanged and emits nothing. An iteration that
  raises ends the task and emits nothing.
\<close>

datatype event = Cmd payload | Tick

definition loop_runs :: "sys \<Rightarrow> bool" where
  "loop_runs s = (timer_task s = Some True \<and> running (state s) \<and> \<not> paused (state s))"

fun step :: "real \<Rightarrow> event \<Rightarrow> sys \<Rightarrow> sys \<times> emission list" where
  "step now (Cmd data) s = (case cmd data now s of Inl _ \<Rightarrow> (s, []) | Inr r \<Rightarrow> r)"
| "step now Tick s =
     (if loop_runs s then
        (case timer_loop_body now s of
           (s', Inl _) \<Rightarrow> (s'\<lparr> timer_task := Some False \<rparr>, [])
         | (s', Inr em) \<Rightarrow> (s', [em]))
      else (s, []))"

fun run :: "(real \<times> event) list \<Rightarrow> sys \<Rightarrow> sys" where
  "run [] s = s"
| "run ((now, ev) # tr) s = run tr (fst (step now ev s))"

fun emissions :: "(real \<times> event) list \<Rightarrow> sys \<Rightarrow> emission list" where
  "emissions [] s = []"
| "emissions ((now, ev) # tr) s = snd (step now ev s) @ emissions tr (fst (step now ev s))"

text \<open>
  \<open>reach s\<close>: the globals are \<open>s\<close> after some sequence of commands and timer
  iterations from the initial state.
\<close>

inductive reach :: "sys \<Rightarrow> bool" where
  reach_init: "reach init_sys"
| reach_step: "reach s \<Longrightarrow> reach (fst (step now ev s))"

section \<open>Notions used to state the properties\<close>


text \<open>
  The doubles: the finite values of a float. A float operation whose exact
  value is a double returns it.
\<close>

definition double :: "real \<Rightarrow> bool" where
  "double x =
     (\<exists>m e. \<bar>m\<bar> < (2::int) ^ 53 \<and> - 1074 \<le> e \<and> e \<le> 971 \<and> x = of_int m * 2 powi e)"



text \<open>
  A bell is due at \<open>e = int(elapsed)\<close> when the scan's two tests hold for it;
  \<open>mark\<close> is what the scan does to one bell.
\<close>

definition fires :: "int \<Rightarrow> bell \<Rightarrow> bool" where
  "fires e b = (enabled b \<and> \<not> triggered b \<and> at_sec b \<le> e)"

definition mark :: "int \<Rightarrow> bell \<Rightarrow> bell" where
  "mark e b = (if fires e b then b\<lparr>triggered := True\<rparr> else b)"

text \<open>
  The state that an iteration of the timer loop writes when it reaches its
  emit, from the values of its floats \<open>elapsed\<close> and \<open>remaining\<close>.
\<close>

definition tick_state :: "real \<Rightarrow> real \<Rightarrow> timer_state \<Rightarrow> timer_state" where
  "tick_state e r st =
     st\<lparr> elapsed_sec := int_of_float e, remaining_sec := int_of_float r, over := (r < 0),
         bells := map (mark (int_of_float e)) (bells st) \<rparr>"

text \<open>An iteration of the timer loop that reaches its emit.\<close>

definition tick_completes :: "real \<Rightarrow> sys \<Rightarrow> bool" where
  "tick_completes now s =
     (loop_runs s \<and> (case snd (timer_loop_body now s) of Inl _ \<Rightarrow> False | Inr _ \<Rightarrow> True))"

text \<open>The counts the scan collects, in the order of the bell list.\<close>

definition fired_counts :: "int \<Rightarrow> bell list \<Rightarrow> int list" where
  "fired_counts e bs = map count (filter (fires e) bs)"

definition is_action :: "string \<Rightarrow> event \<Rightarrow> bool" where
  "is_action a ev =
     (case ev of Tick \<Rightarrow> False | Cmd data \<Rightarrow> dict_get data ''action'' JNull = JStr a)"

text \<open>
  The events that may clear the \<open>triggered\<close> flag of bell \<open>i\<close>: a \<open>reset\<close>, a
  \<open>set_total\<close>, and a \<open>set_bell\<close>, unless its index (0 when absent) is an integer
  other than \<open>i\<close>.
\<close>

definition clears_bell :: "nat \<Rightarrow> event \<Rightarrow> bool" where
  "clears_bell i ev =
     (is_action ''reset'' ev \<or> is_action ''set_total'' ev \<or>
      (case ev of
         Tick \<Rightarrow> False
       | Cmd data \<Rightarrow>
           dict_get data ''action'' JNull = JStr ''set_bell'' \<and>
           (case dict_get data ''index'' (JInt 0) of JInt j \<Rightarrow> j = int i | _ \<Rightarrow> True)))"

text \<open>
  Bell \<open>i\<close> fires in the event \<open>ev\<close> at \<open>now\<close>: a timer iteration turns its flag
  from false to true. How often it fires along a run.
\<close>

definition bell_fires :: "nat \<Rightarrow> real \<Rightarrow> event \<Rightarrow> sys \<Rightarrow> bool" where
  "bell_fires i now ev s =
     (ev = Tick \<and> i < length (bells (state s)) \<and> \<not> triggered (bells (state s) ! i) \<and>
      triggered (bells (state (fst (step now ev s))) ! i))"

fun fire_count :: "nat \<Rightarrow> (real \<times> event) list \<Rightarrow> sys \<Rightarrow> nat" where
  "fire_count i [] s = 0"
| "fire_count i ((now, ev) # tr) s =
     (if bell_fires i now ev s then 1 else 0) + fire_count i tr (fst (step now ev s))"

text \<open>
  The timer counts from the anchor \<open>t0\<close> with the frozen offset \<open>E\<close>.
\<close>

definition anchored :: "real \<Rightarrow> int \<Rightarrow> sys \<Rightarrow> bool" where
  "anchored t0 E s =
     (running (state s) \<and> \<not> paused (state s) \<and> start_wall s = t0 \<and> elapsed_at_pause s = E)"

text \<open>
  The fields a branch of \<open>cmd\<close> reads with a default, as a payload: appending
  it to the payload received supplies exactly the absent fields.
\<close>

definition defaults :: "jval \<Rightarrow> payload" where
  "defaults action =
     (if action = JStr ''set_total'' then [(''minutes'', JInt 3), (''seconds'', JInt 0)]
      else if action = JStr ''set_bell'' then
        [(''index'', JInt 0), (''minutes'', JInt 0), (''seconds'', JInt 0),
         (''enabled'', JBool True)]
      else if action = JStr ''manual_bell'' then [(''count'', JInt 1)]
      else [])"

text \<open>A field that is absent or a JSON number: an integer or a finite float.\<close>

definition numeric_or_absent :: "payload \<Rightarrow> string \<Rightarrow> bool" where
  "numeric_or_absent data k =
     (case map_of data k of
        None \<Rightarrow> True
      | Some v \<Rightarrow> (case v of JInt _ \<Rightarrow> True | JFloat _ \<Rightarrow> True | _ \<Rightarrow> False))"


subsection \<open>Concrete runs\<close>

definition start_cmd :: payload where
  "start_cmd = [(''action'', JStr ''start'')]"

definition tr_start :: "(real \<times> event) list" where
  "tr_start = [(1000, Cmd start_cmd)]"



definition tr_over_set_total :: "(real \<times> event) list" where
  "tr_over_set_total =
     [(1000, Cmd start_cmd), (2361 / 2, Tick), (1181, Cmd [(''action'', JStr ''pause'')]),
      (1182, Cmd [(''action'', JStr ''set_total''), (''minutes'', JInt 5)])]"

definition tr_bell1 :: "(real \<times> event) list" where
  "tr_bell1 = [(1000, Cmd start_cmd), (1060, Tick)]"

definition tr_paused :: "(real \<times> event) list" where
  "tr_paused = [(1000, Cmd start_cmd), (1060, Tick), (1061, Cmd [(''action'', JStr ''pause'')])]"

definition tr_paused30 :: "(real \<times> event) list" where
  "tr_paused30 =
     [(1000, Cmd start_cmd), (2061 / 2, Tick), (1031, Cmd [(''action'', JStr ''pause'')])]"

definition rearm_cmd :: payload where
  "rearm_cmd = [(''action'', JStr ''set_bell''), (''index'', JInt 0), (''minutes'', JInt 1)]"

definition tr_refire :: "(real \<times> event) list" where
  "tr_refire = [(1000, Cmd start_cmd), (1060, Tick), (1061, Cmd rearm_cmd), (1062, Tick)]"

definition tr_same :: "(real \<times> event) list" where
  "tr_same =
     [(999, Cmd [(''action'', JStr ''set_bell''), (''index'', JInt 1), (''minutes'', JInt 1)]),
      (1000, Cmd start_cmd)]"

text \<open>
  A total time that does not convert to a float, set while the timer is
  paused, and the run that resumes with it.
\<close>

definition huge :: int where
  "huge = 2 ^ 1024"

definition tr_huge :: "(real \<times> event) list" where
  "tr_huge =
     [(1000, Cmd start_cmd), (1030, Tick), (1031, Cmd [(''action'', JStr ''pause'')]),
      (1032, Cmd [(''action'', JStr ''set_total''), (''minutes'', JInt 0),
                  (''seconds'', JInt huge)])]"

section \<open>Basic facts\<close>

subsection \<open>Floats\<close>

lemma round_half_even_of_int [simp]: "round_half_even (of_int n) = n"
  by (simp add: round_half_even_def)

lemma round_half_even_numeral [simp]: "round_half_even (numeral k) = numeral k"
  using round_half_even_of_int[of "numeral k"] by simp

lemma fl_exact:
  assumes "double x"
  shows "fl x = Fin x"
proof (cases "x = 0")
  case True
  then show ?thesis by (simp add: fl_def)
next
  case False
  from assms obtain m k where m: "\<bar>m\<bar> < (2::int) ^ 53" and k: "- 1074 \<le> k" "k \<le> 971"
    and x: "x = of_int m * 2 powi k"
    by (auto simp: double_def)
  define e where "e = \<lfloor>log 2 \<bar>x\<bar>\<rfloor>"
  define j where "j = max e (- 1022) - 52"
  have xpos: "0 < \<bar>x\<bar>" using False by simp
  have "2 powr (of_int e) \<le> \<bar>x\<bar>"
    using floor_log_eq_powr_iff[of "\<bar>x\<bar>" 2 e] xpos e_def by simp
  then have lo: "2 powi e \<le> \<bar>x\<bar>"
    by (simp add: powr_real_of_int')
  have absx: "\<bar>x\<bar> = of_int \<bar>m\<bar> * 2 powi k"
    by (simp add: x abs_mult)
  have m': "of_int \<bar>m\<bar> \<le> (2::real) ^ 53 - 1"
  proof -
    from m have "\<bar>m\<bar> \<le> 2 ^ 53 - 1" by simp
    then have "of_int \<bar>m\<bar> \<le> (of_int (2 ^ 53 - 1) :: real)" by (simp only: of_int_le_iff)
    then show ?thesis by simp
  qed
  then have "\<bar>x\<bar> < 2 ^ 53 * 2 powi k"
    unfolding absx by (simp add: zero_less_power_int)
  also have "\<dots> = 2 powi (53 + k)"
    by (simp add: power_int_add)
  finally have up: "\<bar>x\<bar> < 2 powi (53 + k)" .
  have "e < 53 + k"
  proof (rule ccontr)
    assume "\<not> e < 53 + k"
    then have "(2::real) powi (53 + k) \<le> 2 powi e"
      by (intro power_int_increasing) simp_all
    with lo up show False by linarith
  qed
  with k have jk: "j \<le> k" by (simp add: j_def)
  have pw: "(2::real) powi k = 2 powi (k - j) * 2 powi j"
    by (simp flip: power_int_add)
  have nn: "(2::real) powi (k - j) = of_int (2 ^ nat (k - j))"
    using jk by (simp add: power_int_nonneg_exp)
  have q: "x / 2 powi j = of_int (m * 2 ^ nat (k - j))"
    unfolding x pw nn by simp
  have r: "of_int (round_half_even (x / 2 powi j)) * 2 powi j = x"
    unfolding q round_half_even_of_int unfolding x pw nn by simp
  have "2 powi k \<le> (2::real) powi 971"
    using k by (intro power_int_increasing) simp_all
  then have "\<bar>x\<bar> \<le> (2 ^ 53 - 1) * 2 powi 971"
    unfolding absx using m' by (intro mult_mono) simp_all
  also have "\<dots> < 2 ^ 53 * 2 powi 971" by simp
  also have "\<dots> = 2 ^ 1024" by (simp add: power_int_def flip: power_add)
  finally have fin: "\<not> 2 ^ 1024 \<le> \<bar>x\<bar>" by simp
  show ?thesis
    using False fin r by (simp add: fl_def Let_def flip: e_def j_def)
qed

lemma double_of_int: "\<bar>k\<bar> < 2 ^ 53 \<Longrightarrow> double (of_int k)"
  unfolding double_def by (rule exI[of _ k], rule exI[of _ 0]) simp

lemma double_half: "\<bar>k\<bar> < 2 ^ 53 \<Longrightarrow> double (of_int k / 2)"
  unfolding double_def by (rule exI[of _ k], rule exI[of _ "- 1"]) (simp add: power_int_minus)

lemma fl_0 [simp]: "fl 0 = Fin 0"
  by (simp add: fl_def)

lemma fl_1 [simp]: "fl 1 = Fin 1"
  using fl_exact[OF double_of_int[of 1]] by simp

lemma fl_numeral: "(numeral n :: int) < 2 ^ 53 \<Longrightarrow> fl (numeral n) = Fin (numeral n)"
  using fl_exact[OF double_of_int[of "numeral n"]] by simp

lemma fl_neg_numeral:
  "(numeral n :: int) < 2 ^ 53 \<Longrightarrow> fl (- numeral n) = Fin (- numeral n)"
  using fl_exact[OF double_of_int[of "- numeral n"]] by simp

lemma fl_numeral_half:
  "(numeral n :: int) < 2 ^ 53 \<Longrightarrow> fl (numeral n / 2) = Fin (numeral n / 2)"
  using fl_exact[OF double_half[of "numeral n"]] by simp

lemma fl_one_half: "fl (1 / 2) = Fin (1 / 2)"
  using fl_exact[OF double_half[of 1]] by simp

lemma fl_neg_numeral_half:
  "(numeral n :: int) < 2 ^ 53 \<Longrightarrow> fl (- (numeral n / 2)) = Fin (- (numeral n / 2))"
  using fl_exact[OF double_half[of "- numeral n"]] by simp

lemma fl_neg_one_half: "fl (- (1 / 2)) = Fin (- (1 / 2))"
  using fl_exact[OF double_half[of "- 1"]] by simp

lemmas fl_vals =
  fl_numeral fl_neg_numeral fl_numeral_half fl_one_half fl_neg_numeral_half fl_neg_one_half

text \<open>
  Two values outside the exact range: \<open>2 ^ 53 + 1\<close> lies half way between two
  doubles and goes to the even one, and \<open>2 ^ 1024\<close> does not convert.
\<close>

lemma floor_log2_eqI:
  assumes "2 ^ n \<le> x" "x < 2 ^ Suc n"
  shows "\<lfloor>log 2 x\<rfloor> = int n"
proof -
  have "0 < x" using assms(1) by (smt (verit) zero_less_power)
  then show ?thesis
    using assms by (simp add: floor_log_eq_powr_iff powr_add powr_realpow)
qed

lemma fl_2_53_plus_1: "fl (2 ^ 53 + 1) = Fin (2 ^ 53)"
proof -
  have e: "\<lfloor>log 2 \<bar>2 ^ 53 + 1 :: real\<bar>\<rfloor> = 53"
    using floor_log2_eqI[of 53 "2 ^ 53 + 1"] by simp
  show ?thesis
    unfolding fl_def e by (simp add: Let_def round_half_even_def)
qed

text \<open>
  A sum that rounds up to the next whole number: \<open>30 + (1 - 2 ^ (- 53))\<close> lies
  closer to \<open>31\<close> than to the double below it.
\<close>

lemma fl_sum_rounds_up: "fl (30 + (1 - 1 / 2 ^ 53)) = Fin 31"
proof -
  define x :: real where "x = 30 + (1 - 1 / 2 ^ 53)"
  have x1: "2 ^ 4 \<le> x" and x2: "x < 2 ^ Suc 4" and x0: "x \<noteq> 0" "0 < x"
    by (simp_all add: x_def)
  have e: "\<lfloor>log 2 \<bar>x\<bar>\<rfloor> = 4"
    using floor_log2_eqI[OF x1 x2] x0 by simp
  have u: "(2::real) powi (- 48) = 1 / 2 ^ 48"
    by (simp add: power_int_def power_one_over)
  have q: "\<lfloor>x * 2 ^ 48\<rfloor> = 31 * 2 ^ 48 - 1"
    by (rule floor_unique) (simp_all add: x_def)
  have d: "x * 2 ^ 48 - of_int \<lfloor>x * 2 ^ 48\<rfloor> = 31 / 32"
    unfolding q by (simp add: x_def)
  have r: "round_half_even (x * 2 ^ 48) = 31 * 2 ^ 48"
    apply (simp only: round_half_even_def Let_def d)
    apply (simp only: q)
    apply simp
    done
  have "fl x = Fin 31"
    unfolding fl_def e using x0 r by (simp add: Let_def u)
  then show ?thesis by (simp only: x_def)
qed

lemma fl_2_1024: "fl (2 ^ 1024) = PInf"
proof -
  have e: "\<lfloor>log 2 \<bar>2 ^ 1024 :: real\<bar>\<rfloor> = 1024"
    using floor_log2_eqI[of 1024 "2 ^ 1024"] by simp
  show ?thesis
    unfolding fl_def e by (simp add: Let_def power_int_def)
qed

subsection \<open>The timer loop\<close>

lemma scan_bells_eq:
  "scan_bells e bs acc = (map (mark e) bs, acc @ fired_counts e bs)"
  by (induction bs arbitrary: acc) (simp_all add: fires_def mark_def fired_counts_def)

lemma int_of_float_nonneg: "0 \<le> x \<Longrightarrow> int_of_float x = \<lfloor>x\<rfloor>"
  by (simp add: int_of_float_def)

lemma int_of_float_of_int [simp]: "int_of_float (of_int n) = n"
  by (simp add: int_of_float_def)


lemma body_completes:
  assumes "snd (timer_loop_body now s) = Inr em"
  shows "\<exists>e r. fst (timer_loop_body now s) = s\<lparr> state := tick_state e r (state s) \<rparr> \<and>
           em = Emit (tick_state e r (state s))
                  (if fired_counts (int_of_float e) (bells (state s)) = [] then None
                   else Some (fired_counts (int_of_float e) (bells (state s))))"
proof -
  obtain eap where eap: "float_of_int (elapsed_at_pause s) = Inr eap"
    using assms by (cases "float_of_int (elapsed_at_pause s)") (simp_all add: timer_loop_body_def)
  obtain tot where tot: "float_of_int (total_sec (state s)) = Inr tot"
    using assms eap
    by (cases "float_of_int (total_sec (state s))") (simp_all add: timer_loop_body_def Let_def)
  obtain e where e: "float_add eap (fl (now - start_wall s)) = Fin e"
    using assms eap tot
    by (cases "float_add eap (fl (now - start_wall s))") (simp_all add: timer_loop_body_def Let_def)
  obtain r where r: "float_sub tot (Fin e) = Fin r"
    using assms eap tot e
    by (cases "float_sub tot (Fin e)") (simp_all add: timer_loop_body_def Let_def)
  show ?thesis
    using assms eap tot e r
    by (rule_tac x = e in exI, rule_tac x = r in exI)
       (auto simp: timer_loop_body_def Let_def scan_bells_eq tick_state_def)
qed

lemma body_raises:
  assumes "snd (timer_loop_body now s) = Inl err"
  shows "fst (timer_loop_body now s) = s \<or>
         (\<exists>e. fst (timer_loop_body now s) = s\<lparr> state := (state s)\<lparr> elapsed_sec := e \<rparr> \<rparr>)"
  using assms
  by (auto simp: timer_loop_body_def Let_def scan_bells_eq split: sum.splits prod.splits)


lemma step_tick_completes:
  assumes "tick_completes now s"
  shows "\<exists>e r. step now Tick s =
           (s\<lparr> state := tick_state e r (state s) \<rparr>,
            [Emit (tick_state e r (state s))
               (if fired_counts (int_of_float e) (bells (state s)) = [] then None
                else Some (fired_counts (int_of_float e) (bells (state s))))])"
proof -
  from assms obtain em where r: "loop_runs s" and em: "snd (timer_loop_body now s) = Inr em"
    by (auto simp: tick_completes_def split: sum.splits)
  from body_completes[OF em] obtain e r where
    "fst (timer_loop_body now s) = s\<lparr> state := tick_state e r (state s) \<rparr>"
    "em = Emit (tick_state e r (state s))
            (if fired_counts (int_of_float e) (bells (state s)) = [] then None
             else Some (fired_counts (int_of_float e) (bells (state s))))"
    by blast
  with r em show ?thesis
    by (rule_tac x = e in exI, rule_tac x = r in exI) (simp add: split_beta)
qed

lemma step_tick_cases:
  "fst (step now Tick s) = s \<or>
   fst (step now Tick s) = s\<lparr> timer_task := Some False \<rparr> \<or>
   (\<exists>e. fst (step now Tick s) =
          s\<lparr> state := (state s)\<lparr> elapsed_sec := e \<rparr>, timer_task := Some False \<rparr>) \<or>
   (\<exists>e r. fst (step now Tick s) = s\<lparr> state := tick_state e r (state s) \<rparr>)"
proof (cases "loop_runs s")
  case False
  then show ?thesis by simp
next
  case True
  show ?thesis
  proof (cases "snd (timer_loop_body now s)")
    case (Inl err)
    from body_raises[OF Inl] True Inl show ?thesis
      by (auto simp: split_beta)
  next
    case (Inr em)
    with True have "tick_completes now s" by (simp add: tick_completes_def)
    from step_tick_completes[OF this] obtain e r where
      "step now Tick s =
         (s\<lparr> state := tick_state e r (state s) \<rparr>,
          [Emit (tick_state e r (state s))
             (if fired_counts (int_of_float e) (bells (state s)) = [] then None
              else Some (fired_counts (int_of_float e) (bells (state s))))])"
      by blast
    then have "fst (step now Tick s) = s\<lparr> state := tick_state e r (state s) \<rparr>"
      by (simp only: fst_conv)
    then show ?thesis by blast
  qed
qed

lemma step_tick_bells:
  "bells (state (fst (step now Tick s))) = bells (state s) \<or>
   (tick_completes now s \<and>
    bells (state (fst (step now Tick s))) =
      map (mark (elapsed_sec (state (fst (step now Tick s))))) (bells (state s)))"
proof (cases "tick_completes now s")
  case True
  from step_tick_completes[OF this] True show ?thesis
    by (auto simp: tick_state_def)
next
  case False
  then have "loop_runs s \<Longrightarrow> \<exists>err. snd (timer_loop_body now s) = Inl err"
    by (cases "snd (timer_loop_body now s)") (simp_all add: tick_completes_def)
  then show ?thesis
    using body_raises[of now s] by (cases "loop_runs s") (auto simp: split_beta)
qed

subsection \<open>Commands and the reachable states\<close>





lemma reach_run: "reach s \<Longrightarrow> reach (run tr s)"
proof (induction tr arbitrary: s)
  case Nil
  then show ?case by simp
next
  case (Cons p tr)
  obtain now ev where p: "p = (now, ev)" by (cases p)
  from Cons.prems have "reach (fst (step now ev s))" by (rule reach_step)
  then have "reach (run tr (fst (step now ev s)))" by (rule Cons.IH)
  with p show ?case by simp
qed




subsection \<open>Bells: what sets, keeps and clears the triggered flag\<close>

lemma step_length_bells:
  "length (bells (state (fst (step now ev s)))) = length (bells (state s))"
proof (cases ev)
  case (Cmd data)
  then show ?thesis
    by (auto simp: cmd_def Let_def clear_triggered_def split: sum.splits if_splits)
next
  case Tick
  from step_tick_bells[of now s] show ?thesis
    unfolding Tick by (auto simp del: step.simps)
qed

lemma step_keeps_triggered:
  assumes "i < length (bells (state s))" "triggered (bells (state s) ! i)" "\<not> clears_bell i ev"
  shows "triggered (bells (state (fst (step now ev s))) ! i)"
proof (cases ev)
  case (Cmd data)
  with assms show ?thesis
    by (auto simp: cmd_def Let_def clears_bell_def is_action_def nth_list_update
             split: sum.splits if_splits jval.splits)
next
  case Tick
  from step_tick_bells[of now s] assms(1,2) show ?thesis
    unfolding Tick by (auto simp: mark_def simp del: step.simps)
qed

lemma cmd_never_triggers:
  assumes "i < length (bells (state s))" "\<not> triggered (bells (state s) ! i)"
  shows "\<not> triggered (bells (state (fst (step now (Cmd data) s))) ! i)"
  using assms
  by (auto simp: cmd_def Let_def clear_triggered_def nth_list_update
           split: sum.splits if_splits)

lemma tick_triggers_due:
  assumes "i < length (bells (state s))" "\<not> triggered (bells (state s) ! i)"
    and "triggered (bells (state (fst (step now Tick s))) ! i)"
  shows "tick_completes now s \<and>
         enabled (bells (state s) ! i) \<and>
         at_sec (bells (state s) ! i) \<le> elapsed_sec (state (fst (step now Tick s)))"
  using step_tick_bells[of now s] assms
  by (auto simp: mark_def fires_def simp del: step.simps split: if_splits)

lemma triggered_never_fires:
  assumes "i < length (bells (state s))" "triggered (bells (state s) ! i)"
    and "\<forall>ev \<in> set (map snd tr). \<not> clears_bell i ev"
  shows "fire_count i tr s = 0"
  using assms
proof (induction tr arbitrary: s)
  case Nil
  then show ?case by simp
next
  case (Cons p tr)
  obtain now ev where p: "p = (now, ev)" by (cases p)
  have nf: "\<not> bell_fires i now ev s"
    using Cons.prems(2) by (simp add: bell_fires_def)
  from Cons.prems p have nc: "\<not> clears_bell i ev"
    and rest: "\<forall>ev \<in> set (map snd tr). \<not> clears_bell i ev" by simp_all
  have len: "i < length (bells (state (fst (step now ev s))))"
    using Cons.prems(1) by (simp only: step_length_bells)
  have trg: "triggered (bells (state (fst (step now ev s))) ! i)"
    using Cons.prems(1,2) nc by (rule step_keeps_triggered)
  have "fire_count i tr (fst (step now ev s)) = 0"
    using len trg rest by (rule Cons.IH)
  with nf p show ?case by (simp del: step.simps)
qed

lemma fire_count_le_1:
  assumes "\<forall>ev \<in> set (map snd tr). \<not> clears_bell i ev"
  shows "fire_count i tr s \<le> 1"
  using assms
proof (induction tr arbitrary: s)
  case Nil
  then show ?case by simp
next
  case (Cons p tr)
  obtain now ev where p: "p = (now, ev)" by (cases p)
  from Cons.prems have rest: "\<forall>ev \<in> set (map snd tr). \<not> clears_bell i ev" by simp
  show ?case
  proof (cases "bell_fires i now ev s")
    case True
    then have len: "i < length (bells (state (fst (step now ev s))))"
      and trg: "triggered (bells (state (fst (step now ev s))) ! i)"
      unfolding bell_fires_def step_length_bells by blast+
    have "fire_count i tr (fst (step now ev s)) = 0"
      using len trg rest by (rule triggered_never_fires)
    with True p show ?thesis by (simp del: step.simps)
  next
    case False
    with Cons.IH[OF rest, of "fst (step now ev s)"] p show ?thesis by (simp del: step.simps)
  qed
qed

subsection \<open>Payload fields and their defaults\<close>

lemma dict_get_numeric:
  assumes "numeric_or_absent data k"
  shows "\<exists>m. py_int (dict_get data k (JInt d)) = Inr m"
  using assms
  by (auto simp: numeric_or_absent_def dict_get_def split: option.splits jval.splits)

lemma dict_get_append:
  "dict_get (data @ extra) k d = dict_get data k (dict_get extra k d)"
  by (simp add: dict_get_def map_add_def split: option.splits)

lemma cmd_total:
  assumes "numeric_or_absent data ''minutes''" "numeric_or_absent data ''seconds''"
    "numeric_or_absent data ''count''" "numeric_or_absent data ''index''"
  shows "\<exists>r. cmd data now s = Inr r"
proof -
  obtain m3 where m3: "py_int (dict_get data ''minutes'' (JInt 3)) = Inr m3"
    using dict_get_numeric[OF assms(1), of 3] by auto
  obtain m0 where m0: "py_int (dict_get data ''minutes'' (JInt 0)) = Inr m0"
    using dict_get_numeric[OF assms(1), of 0] by auto
  obtain s0 where s0: "py_int (dict_get data ''seconds'' (JInt 0)) = Inr s0"
    using dict_get_numeric[OF assms(2), of 0] by auto
  obtain c1 where c1: "py_int (dict_get data ''count'' (JInt 1)) = Inr c1"
    using dict_get_numeric[OF assms(3), of 1] by auto
  obtain i0 where i0: "py_int (dict_get data ''index'' (JInt 0)) = Inr i0"
    using dict_get_numeric[OF assms(4), of 0] by auto
  show ?thesis
    by (simp add: cmd_def Let_def m3 m0 s0 c1 i0)
qed

lemma defaults_lookup:
  "dict_get (defaults a) ''action'' d = d"
  "dict_get (defaults (JStr ''set_total'')) ''minutes'' d = JInt 3"
  "dict_get (defaults (JStr ''set_total'')) ''seconds'' d = JInt 0"
  "dict_get (defaults (JStr ''set_bell'')) ''index'' d = JInt 0"
  "dict_get (defaults (JStr ''set_bell'')) ''minutes'' d = JInt 0"
  "dict_get (defaults (JStr ''set_bell'')) ''seconds'' d = JInt 0"
  "dict_get (defaults (JStr ''set_bell'')) ''enabled'' d = JBool True"
  "dict_get (defaults (JStr ''manual_bell'')) ''count'' d = JInt 1"
  by (simp_all add: defaults_def dict_get_def)

lemma dict_get_defaults_action:
  "dict_get (data @ defaults a) ''action'' JNull = dict_get data ''action'' JNull"
  by (simp add: dict_get_append defaults_lookup)

lemma dict_get_defaults_set_total:
  "dict_get (data @ defaults (JStr ''set_total'')) ''minutes'' (JInt 3) =
     dict_get data ''minutes'' (JInt 3)"
  "dict_get (data @ defaults (JStr ''set_total'')) ''seconds'' (JInt 0) =
     dict_get data ''seconds'' (JInt 0)"
  by (simp_all add: dict_get_append defaults_lookup)

lemma dict_get_defaults_set_bell:
  "dict_get (data @ defaults (JStr ''set_bell'')) ''index'' (JInt 0) =
     dict_get data ''index'' (JInt 0)"
  "dict_get (data @ defaults (JStr ''set_bell'')) ''minutes'' (JInt 0) =
     dict_get data ''minutes'' (JInt 0)"
  "dict_get (data @ defaults (JStr ''set_bell'')) ''seconds'' (JInt 0) =
     dict_get data ''seconds'' (JInt 0)"
  "dict_get (data @ defaults (JStr ''set_bell'')) ''enabled'' (JBool True) =
     dict_get data ''enabled'' (JBool True)"
  by (simp_all add: dict_get_append defaults_lookup)

lemma dict_get_defaults_manual_bell:
  "dict_get (data @ defaults (JStr ''manual_bell'')) ''count'' (JInt 1) =
     dict_get data ''count'' (JInt 1)"
  by (simp add: dict_get_append defaults_lookup)

lemma cmd_defaults:
  "cmd (data @ defaults (dict_get data ''action'' JNull)) now s = cmd data now s"
proof -
  define a where "a = dict_get data ''action'' JNull"
  consider "a = JStr ''set_total''" | "a = JStr ''set_bell''" | "a = JStr ''manual_bell''"
    | "a \<noteq> JStr ''set_total''" "a \<noteq> JStr ''set_bell''" "a \<noteq> JStr ''manual_bell''"
    by blast
  then have "cmd (data @ defaults a) now s = cmd data now s"
  proof cases
    case 1
    have d: "dict_get data ''action'' JNull = JStr ''set_total''" using 1 a_def by simp
    show ?thesis
      unfolding 1 cmd_def dict_get_defaults_action dict_get_defaults_set_total
      by (simp add: Let_def d)
  next
    case 2
    have d: "dict_get data ''action'' JNull = JStr ''set_bell''" using 2 a_def by simp
    show ?thesis
      unfolding 2 cmd_def dict_get_defaults_action dict_get_defaults_set_bell
      by (simp add: Let_def d)
  next
    case 3
    have d: "dict_get data ''action'' JNull = JStr ''manual_bell''" using 3 a_def by simp
    show ?thesis
      unfolding 3 cmd_def dict_get_defaults_action dict_get_defaults_manual_bell
      by (simp add: Let_def d)
  next
    case 4
    then have d: "dict_get data ''action'' JNull \<noteq> JStr ''set_total''"
      "dict_get data ''action'' JNull \<noteq> JStr ''set_bell''"
      "dict_get data ''action'' JNull \<noteq> JStr ''manual_bell''"
      using a_def by simp_all
    show ?thesis
      unfolding cmd_def dict_get_defaults_action using d by (simp add: Let_def)
  qed
  then show ?thesis by (simp add: a_def)
qed

subsection \<open>The anchor of the timer loop\<close>

lemma anchored_step:
  assumes "anchored t0 E s" "\<not> is_action ''pause'' ev" "\<not> is_action ''reset'' ev"
  shows "anchored t0 E (fst (step t ev s))"
proof (cases ev)
  case (Cmd data)
  with assms show ?thesis
    by (auto simp: cmd_def Let_def anchored_def is_action_def split: sum.splits if_splits)
next
  case Tick
  from step_tick_cases[of t s] assms(1) show ?thesis
    unfolding Tick by (auto simp: anchored_def tick_state_def simp del: step.simps)
qed

lemma anchored_run:
  assumes "anchored t0 E s"
    and "\<forall>ev \<in> set (map snd tr). \<not> is_action ''pause'' ev \<and> \<not> is_action ''reset'' ev"
  shows "anchored t0 E (run tr s)"
  using assms
proof (induction tr arbitrary: s)
  case Nil
  then show ?case by simp
next
  case (Cons p tr)
  obtain t ev where p: "p = (t, ev)" by (cases p)
  from Cons.prems p have "anchored t0 E (fst (step t ev s))"
    by (intro anchored_step) simp_all
  moreover from Cons.prems have
    "\<forall>ev \<in> set (map snd tr). \<not> is_action ''pause'' ev \<and> \<not> is_action ''reset'' ev" by simp
  ultimately have "anchored t0 E (run tr (fst (step t ev s)))" by (rule Cons.IH)
  with p show ?case by simp
qed

lemma resume_anchors:
  assumes "running (state s)" "paused (state s)"
    and "dict_get data ''action'' JNull = JStr ''start''"
  shows "anchored t0 (elapsed_sec (state s)) (fst (step t0 (Cmd data) s))"
  using assms by (simp add: cmd_def Let_def anchored_def)

lemma anchored_tick:
  assumes "anchored t0 E s" "loop_runs s" "0 \<le> E" "t0 \<le> now"
    and "fl (of_int E) = Fin (of_int E)"
    and "fl (now - t0) = Fin (now - t0)"
    and "fl (of_int E + (now - t0)) = Fin (of_int E + (now - t0))"
    and "tick_completes now s"
  shows "elapsed_sec (state (fst (step now Tick s))) = E + \<lfloor>now - t0\<rfloor>"
proof -
  from assms(1) have sw: "start_wall s = t0" and eap: "elapsed_at_pause s = E"
    by (simp_all add: anchored_def)
  from assms(8) obtain em where em: "snd (timer_loop_body now s) = Inr em"
    by (auto simp: tick_completes_def split: sum.splits)
  have fe: "float_of_int (elapsed_at_pause s) = Inr (of_int E)"
    using assms(5) eap by (simp add: float_of_int_def)
  have "0 \<le> of_int E + (now - t0)" using assms(3,4) by simp
  then have tr: "int_of_float (of_int E + (now - t0)) = E + \<lfloor>now - t0\<rfloor>"
    by (simp add: int_of_float_nonneg)
  have "elapsed_sec (state (fst (timer_loop_body now s))) = E + \<lfloor>now - t0\<rfloor>"
    using em fe assms(6,7) sw tr
    by (auto simp: timer_loop_body_def Let_def scan_bells_eq split: sum.splits prod.splits)
  with assms(2) em show ?thesis by (simp add: split_beta)
qed

subsection \<open>The concrete runs, evaluated\<close>

lemmas model_defs =
  cmd_def dict_get_def init_sys_def init_state_def loop_runs_def timer_loop_body_def
  float_of_int_def int_of_float_def broadcast_state_def cancel_task_def clear_triggered_def
  Let_def int_of_str_def strip_def is_space_def parse_unsigned_def digit_of_def
  max_str_digits_def fl_vals

lemma run_tr_start:
  "run tr_start init_sys =
     \<lparr> state = init_state\<lparr> running := True \<rparr>,
       timer_task = Some True, start_wall = 1000, elapsed_at_pause = 0 \<rparr>"
  by (simp add: tr_start_def start_cmd_def model_defs)



lemma run_tr_bell1:
  "run tr_bell1 init_sys =
     \<lparr> state = init_state\<lparr> running := True, elapsed_sec := 60, remaining_sec := 120,
           bells := [ \<lparr> enabled = True, at_sec = 60, count = 1, triggered = True \<rparr>,
                      \<lparr> enabled = True, at_sec = 120, count = 2, triggered = False \<rparr>,
                      \<lparr> enabled = True, at_sec = 180, count = 3, triggered = False \<rparr> ] \<rparr>,
       timer_task = Some True, start_wall = 1000, elapsed_at_pause = 0 \<rparr>"
  by (simp add: tr_bell1_def start_cmd_def model_defs)

lemma run_tr_paused:
  "run tr_paused init_sys =
     \<lparr> state = init_state\<lparr> running := True, paused := True, elapsed_sec := 60,
           remaining_sec := 120,
           bells := [ \<lparr> enabled = True, at_sec = 60, count = 1, triggered = True \<rparr>,
                      \<lparr> enabled = True, at_sec = 120, count = 2, triggered = False \<rparr>,
                      \<lparr> enabled = True, at_sec = 180, count = 3, triggered = False \<rparr> ] \<rparr>,
       timer_task = Some False, start_wall = 1000, elapsed_at_pause = 60 \<rparr>"
  by (simp add: tr_paused_def start_cmd_def model_defs)

lemma run_tr_paused30:
  "run tr_paused30 init_sys =
     \<lparr> state = init_state\<lparr> running := True, paused := True, elapsed_sec := 30,
           remaining_sec := 149 \<rparr>,
       timer_task = Some False, start_wall = 1000, elapsed_at_pause = 30 \<rparr>"
  by (simp add: tr_paused30_def start_cmd_def model_defs)

lemma run_tr_same:
  "run tr_same init_sys =
     \<lparr> state = init_state\<lparr> running := True,
           bells := [ \<lparr> enabled = True, at_sec = 60, count = 1, triggered = False \<rparr>,
                      \<lparr> enabled = True, at_sec = 60, count = 2, triggered = False \<rparr>,
                      \<lparr> enabled = True, at_sec = 180, count = 3, triggered = False \<rparr> ] \<rparr>,
       timer_task = Some True, start_wall = 1000, elapsed_at_pause = 0 \<rparr>"
  by (simp add: tr_same_def start_cmd_def model_defs)

lemma huge_pos: "0 < huge"
  by (simp add: huge_def)

lemma float_of_int_0: "float_of_int 0 = Inr 0"
  by (simp add: float_of_int_def)

lemma float_of_int_huge: "float_of_int huge = Inl OverflowError"
proof -
  have "(of_int huge :: real) = 2 ^ 1024" by (simp add: huge_def)
  then show ?thesis by (simp only: float_of_int_def fl_2_1024 pyfloat.case)
qed

lemma run_tr_huge:
  "run tr_huge init_sys =
     \<lparr> state = init_state\<lparr> running := True, paused := True, total_sec := huge,
           remaining_sec := huge \<rparr>,
       timer_task = Some False, start_wall = 1000, elapsed_at_pause = 0 \<rparr>"
  using huge_pos by (simp add: tr_huge_def start_cmd_def model_defs)

text \<open>
  The \<open>set_total\<close> branch does not write \<open>over\<close>, where \<open>reset\<close> does: after the
  time has run out, a pause and a \<open>set_total\<close> of five minutes leave \<open>over\<close> set
  with 300 seconds remaining.
\<close>

lemma set_total_keeps_over:
  "over (state (run tr_over_set_total init_sys)) \<and>
   remaining_sec (state (run tr_over_set_total init_sys)) = 300 \<and>
   elapsed_sec (state (run tr_over_set_total init_sys)) = 0"
  by (simp add: tr_over_set_total_def start_cmd_def model_defs ceiling_def)

section \<open>The stored remaining time (C1)\<close>





section \<open>The over flag (C2)\<close>





section \<open>Malformed payload fields (C3)\<close>

text \<open>
  C3, as stated: a non-numeric \<open>minutes\<close>, \<open>seconds\<close>, \<open>count\<close> or \<open>index\<close> never
  makes the handler raise; the default is substituted. The handler takes the
  default only for an absent field (\<^verbatim>\<open>data.get(key, default)\<close>); a field that
  is present goes to \<^verbatim>\<open>int(...)\<close> unguarded, and the exception leaves the
  handler before any write or emit.
\<close>

theorem cmd_raises_on_malformed:
  "cmd [(''action'', JStr ''set_total''), (''minutes'', JStr ''abc'')] 0 init_sys = Inl ValueError \<and>
   cmd [(''action'', JStr ''set_bell''), (''seconds'', JNull)] 0 init_sys = Inl TypeError \<and>
   cmd [(''action'', JStr ''manual_bell''), (''count'', JStr ''two'')] 0 init_sys = Inl ValueError"
  by (simp add: model_defs)

text \<open>
  C3, amended: for every command payload whose \<open>minutes\<close>, \<open>seconds\<close>, \<open>count\<close>
  and \<open>index\<close> fields are each absent or a JSON number (an integer or a finite
  float), the handler completes normally; and an absent field acts as its
  default (\<open>set_total\<close>: minutes 3, seconds 0; \<open>set_bell\<close>: index 0, minutes 0,
  seconds 0, enabled true; \<open>manual_bell\<close>: count 1): the handler does on the
  payload what it does on the payload with the defaults filled in.
\<close>

theorem cmd_numeric_never_raises:
  "(numeric_or_absent data ''minutes'' \<and> numeric_or_absent data ''seconds'' \<and>
    numeric_or_absent data ''count'' \<and> numeric_or_absent data ''index'' \<longrightarrow>
      (\<exists>r. cmd data now s = Inr r)) \<and>
   cmd data now s = cmd (data @ defaults (dict_get data ''action'' JNull)) now s"
  using cmd_total[of data now s] cmd_defaults[of data now s] by simp

theorem cmd_numeric_never_raises_witness:
  "numeric_or_absent [(''action'', JStr ''set_total'')] ''minutes'' \<and>
   numeric_or_absent [(''action'', JStr ''set_total'')] ''seconds'' \<and>
   numeric_or_absent [(''action'', JStr ''set_total'')] ''count'' \<and>
   numeric_or_absent [(''action'', JStr ''set_total'')] ''index'' \<and>
   (\<exists>r. cmd [(''action'', JStr ''set_total'')] 2000 (run tr_paused init_sys) = Inr r) \<and>
   total_sec (state (fst (step 2000 (Cmd [(''action'', JStr ''set_total'')])
     (run tr_paused init_sys)))) = 180 \<and>
   cmd [(''action'', JStr ''set_total'')] 2000 (run tr_paused init_sys) =
     cmd [(''action'', JStr ''set_total''), (''minutes'', JInt 3), (''seconds'', JInt 0)] 2000
       (run tr_paused init_sys) \<and>
   numeric_or_absent [(''action'', JStr ''manual_bell''), (''count'', JFloat (5 / 2))] ''count'' \<and>
   cmd [(''action'', JStr ''manual_bell''), (''count'', JFloat (5 / 2))] 0 init_sys =
     Inr (init_sys, [Emit init_state (Some [2])]) \<and>
   cmd [(''action'', JStr ''manual_bell'')] 0 init_sys =
     Inr (init_sys, [Emit init_state (Some [1])])"
  using cmd_numeric_never_raises[of "[(''action'', JStr ''set_total'')]" 2000
      "run tr_paused init_sys"]
    cmd_numeric_never_raises[of "[(''action'', JStr ''manual_bell''), (''count'', JFloat (5 / 2))]"
      0 init_sys]
    cmd_numeric_never_raises[of "[(''action'', JStr ''manual_bell'')]" 0 init_sys]
  unfolding run_tr_paused
  by (simp add: numeric_or_absent_def defaults_def model_defs)

section \<open>Setting the total time (C4, C6, C10)\<close>

text \<open>
  C4, as stated: a \<open>set_total\<close> while not running or while paused, with integers
  \<open>m \<ge> 0\<close> and \<open>s \<ge> 0\<close>, sets \<open>total_sec = 60 * m + s\<close>. The handler applies
  the new total only under its guard \<^verbatim>\<open>if total > 0\<close>: with \<open>m = 0\<close> and \<open>s = 0\<close>
  the total stays 180.
\<close>

theorem set_total_zero_counterexample:
  "\<not> running (state init_sys) \<and> (0::int) \<le> 0 \<and>
   cmd [(''action'', JStr ''set_total''), (''minutes'', JInt 0), (''seconds'', JInt 0)] 0 init_sys =
     Inr (init_sys, [Emit (state init_sys) None]) \<and>
   total_sec (state init_sys) \<noteq> 60 * 0 + 0"
  by (simp add: model_defs)

text \<open>
  C4, amended: for every \<open>set_total\<close> command issued while \<open>running = false\<close> or
  \<open>paused = true\<close>, with supplied integer minutes \<open>m \<ge> 0\<close> and seconds \<open>s \<ge> 0\<close>
  that are not both zero, the post-state has \<open>total_sec = 60 * m + s\<close>,
  \<open>elapsed_sec = 0\<close>, \<open>remaining_sec = total_sec\<close> and every bell's \<open>triggered\<close>
  flag false; the handler then broadcasts that state.
\<close>

theorem set_total_applies:
  assumes "dict_get data ''action'' JNull = JStr ''set_total''"
    and "\<not> running (state s) \<or> paused (state s)"
    and "map_of data ''minutes'' = Some (JInt m)"
    and "map_of data ''seconds'' = Some (JInt sc)"
    and "0 \<le> m" and "0 \<le> sc" and "0 < 60 * m + sc"
  shows "\<exists>s'. cmd data now s = Inr (s', [Emit (state s') None]) \<and>
           total_sec (state s') = 60 * m + sc \<and>
           elapsed_sec (state s') = 0 \<and>
           remaining_sec (state s') = total_sec (state s') \<and>
           (\<forall>b \<in> set (bells (state s')). \<not> triggered b)"
proof -
  have mins: "dict_get data ''minutes'' (JInt 3) = JInt m"
    and secs: "dict_get data ''seconds'' (JInt 0) = JInt sc"
    using assms(3,4) by (simp_all add: dict_get_def)
  have tot: "0 < m * 60 + sc" using assms(7) by simp
  show ?thesis
    using assms(1,2) tot
    by (auto simp: cmd_def Let_def mins secs broadcast_state_def clear_triggered_def)
qed

theorem set_total_applies_witness:
  "dict_get [(''action'', JStr ''set_total''), (''minutes'', JInt 5), (''seconds'', JInt 30)]
     ''action'' JNull = JStr ''set_total'' \<and>
   paused (state (run tr_paused init_sys)) \<and>
   (0::int) \<le> 5 \<and> (0::int) \<le> 30 \<and> (0::int) < 60 * 5 + 30 \<and>
   triggered (bells (state (run tr_paused init_sys)) ! 0) \<and>
   total_sec (state (fst (step 2000
     (Cmd [(''action'', JStr ''set_total''), (''minutes'', JInt 5), (''seconds'', JInt 30)])
     (run tr_paused init_sys)))) = 330 \<and>
   map triggered (bells (state (fst (step 2000
     (Cmd [(''action'', JStr ''set_total''), (''minutes'', JInt 5), (''seconds'', JInt 30)])
     (run tr_paused init_sys))))) = [False, False, False]"
  using set_total_applies[of "[(''action'', JStr ''set_total''), (''minutes'', JInt 5), (''seconds'', JInt 30)]"
      "run tr_paused init_sys" 5 30 2000]
  unfolding run_tr_paused
  by (simp add: model_defs)

text \<open>
  C6: a \<open>set_total\<close> command issued while \<open>running = true\<close> and \<open>paused = false\<close>
  is ignored: the handler raises nothing (it does not even read the fields),
  leaves every global unchanged, and still broadcasts the full state.
\<close>

theorem set_total_rejected_while_running:
  assumes "dict_get data ''action'' JNull = JStr ''set_total''"
    and "running (state s)" and "\<not> paused (state s)"
  shows "cmd data now s = Inr (s, [Emit (state s) None])"
  using assms by (simp add: cmd_def Let_def broadcast_state_def)

theorem set_total_rejected_while_running_witness:
  "dict_get [(''action'', JStr ''set_total''), (''minutes'', JInt 5), (''seconds'', JInt 0)]
     ''action'' JNull = JStr ''set_total'' \<and>
   running (state (run tr_start init_sys)) \<and> \<not> paused (state (run tr_start init_sys)) \<and>
   cmd [(''action'', JStr ''set_total''), (''minutes'', JInt 5), (''seconds'', JInt 0)] 1001
     (run tr_start init_sys) =
     Inr (run tr_start init_sys, [Emit (state (run tr_start init_sys)) None]) \<and>
   total_sec (state (run tr_start init_sys)) = 180"
  using set_total_rejected_while_running[of
      "[(''action'', JStr ''set_total''), (''minutes'', JInt 5), (''seconds'', JInt 0)]"
      "run tr_start init_sys" 1001]
  unfolding run_tr_start
  by (simp add: dict_get_def init_state_def)



section \<open>The triggered flag of a bell (C5)\<close>

text \<open>
  C5, as stated: once \<open>triggered\<close> is true it stays true under every command
  and tick until the next \<open>reset\<close> or \<open>set_total\<close>. The \<open>set_bell\<close> branch of the
  handler writes \<open>triggered = False\<close> to the bell it configures: after bell 0
  has fired at 60 s, a \<open>set_bell\<close> for index 0 clears its flag.
\<close>

theorem triggered_cleared_by_set_bell:
  "reach (run tr_bell1 init_sys) \<and>
   triggered (bells (state (run tr_bell1 init_sys)) ! 0) \<and>
   \<not> is_action ''reset'' (Cmd rearm_cmd) \<and> \<not> is_action ''set_total'' (Cmd rearm_cmd) \<and>
   \<not> triggered (bells (state (fst (step 1061 (Cmd rearm_cmd) (run tr_bell1 init_sys)))) ! 0)"
  using reach_run[OF reach_init, of tr_bell1] unfolding run_tr_bell1
  by (simp add: rearm_cmd_def is_action_def model_defs)

text \<open>
  C5, amended: a bell's \<open>triggered\<close> flag turns from false to true only in an
  engine tick, and that tick stores an \<open>elapsed_sec\<close> of at least the bell's
  \<open>at_sec\<close>; once true, the flag remains true under every tick and every
  command other than \<open>reset\<close>, \<open>set_total\<close> and \<open>set_bell\<close> (a \<open>set_bell\<close> whose
  index is an integer other than the bell's own index, or absent for a bell
  other than bell 0, also leaves it true).
\<close>

theorem triggered_lifecycle:
  "(i < length (bells (state s)) \<and> \<not> triggered (bells (state s) ! i) \<and>
    triggered (bells (state (fst (step now ev s))) ! i) \<longrightarrow>
      ev = Tick \<and>
      at_sec (bells (state s) ! i) \<le> elapsed_sec (state (fst (step now ev s)))) \<and>
   (i < length (bells (state s)) \<and> triggered (bells (state s) ! i) \<and> \<not> clears_bell i ev \<longrightarrow>
      triggered (bells (state (fst (step now ev s))) ! i))"
proof (intro conjI impI)
  assume h: "i < length (bells (state s)) \<and> \<not> triggered (bells (state s) ! i) \<and>
    triggered (bells (state (fst (step now ev s))) ! i)"
  show t: "ev = Tick"
  proof (cases ev)
    case (Cmd data)
    with h cmd_never_triggers[of i s now data] show ?thesis by blast
  next
    case Tick
    then show ?thesis .
  qed
  from h show "at_sec (bells (state s) ! i) \<le> elapsed_sec (state (fst (step now ev s)))"
    unfolding t using tick_triggers_due[of i s now] by blast
next
  assume "i < length (bells (state s)) \<and> triggered (bells (state s) ! i) \<and> \<not> clears_bell i ev"
  then show "triggered (bells (state (fst (step now ev s))) ! i)"
    using step_keeps_triggered[of i s ev now] by simp
qed

theorem triggered_lifecycle_witness:
  "(0::nat) < length (bells (state (run tr_start init_sys))) \<and>
   \<not> triggered (bells (state (run tr_start init_sys)) ! 0) \<and>
   triggered (bells (state (fst (step 1060 Tick (run tr_start init_sys)))) ! 0) \<and>
   at_sec (bells (state (run tr_start init_sys)) ! 0)
     \<le> elapsed_sec (state (fst (step 1060 Tick (run tr_start init_sys)))) \<and>
   (0::nat) < length (bells (state (run tr_bell1 init_sys))) \<and>
   triggered (bells (state (run tr_bell1 init_sys)) ! 0) \<and>
   \<not> clears_bell 0 (Cmd [(''action'', JStr ''set_bell''), (''index'', JInt 1)]) \<and>
   triggered (bells (state (fst (step 1061 (Cmd [(''action'', JStr ''set_bell''), (''index'', JInt 1)])
     (run tr_bell1 init_sys)))) ! 0)"
  using triggered_lifecycle[of 0 "run tr_start init_sys" 1060 Tick]
    triggered_lifecycle[of 0 "run tr_bell1 init_sys" 1061
      "Cmd [(''action'', JStr ''set_bell''), (''index'', JInt 1)]"]
  unfolding run_tr_start run_tr_bell1
  by (simp add: clears_bell_def is_action_def model_defs scan_bells_eq mark_def fires_def)

section \<open>Bells fired by one tick (C7)\<close>

text \<open>
  C7, as stated: a tick marks and collects, in index order, every bell that is
  enabled, untriggered and due, and each bell fires at most once per run-cycle
  (from a start to the next \<open>reset\<close> or \<open>set_total\<close>). The second part fails:
  \<open>set_bell\<close> is accepted while the timer runs and clears the flag, so bell 0
  fires at 60 s and again at 62 s in one run-cycle.
\<close>

theorem bell_refires_after_set_bell:
  "fire_count 0 tr_refire init_sys = 2 \<and>
   map fire_bells (emissions tr_refire init_sys) = [None, Some [1], None, Some [1]] \<and>
   filter (is_action ''reset'') (map snd tr_refire) = [] \<and>
   filter (is_action ''set_total'') (map snd tr_refire) = []"
  by (simp add: tr_refire_def start_cmd_def rearm_cmd_def bell_fires_def is_action_def
        model_defs scan_bells_eq mark_def fires_def fired_counts_def)

text \<open>
  C7, amended: on any single engine tick that completes, every bell that is
  enabled, not yet triggered, and whose \<open>at_sec\<close> is at most the tick's
  \<open>elapsed_sec\<close> is marked triggered (no other bell changes) and its count is in
  that tick's \<open>fire_bells\<close> batch, in index order, the batch being absent when
  empty; a tick that raises changes no bell and emits nothing; and along any
  sequence of events with no \<open>reset\<close>, no \<open>set_total\<close> and no \<open>set_bell\<close> that may
  address bell \<open>i\<close>, bell \<open>i\<close> fires at most once.
\<close>

theorem tick_fires_due_bells:
  "(tick_completes now s \<longrightarrow>
      bells (state (fst (step now Tick s))) =
        map (mark (elapsed_sec (state (fst (step now Tick s))))) (bells (state s)) \<and>
      snd (step now Tick s) =
        [Emit (state (fst (step now Tick s)))
           (if fired_counts (elapsed_sec (state (fst (step now Tick s)))) (bells (state s)) = []
            then None
            else Some (fired_counts (elapsed_sec (state (fst (step now Tick s))))
                         (bells (state s))))]) \<and>
   (\<not> tick_completes now s \<longrightarrow>
      bells (state (fst (step now Tick s))) = bells (state s) \<and> snd (step now Tick s) = []) \<and>
   ((\<forall>ev \<in> set (map snd tr). \<not> clears_bell i ev) \<longrightarrow> fire_count i tr s \<le> 1)"
proof (intro conjI impI)
  assume c: "tick_completes now s"
  from step_tick_completes[OF c] obtain e r where
    st: "step now Tick s =
           (s\<lparr> state := tick_state e r (state s) \<rparr>,
            [Emit (tick_state e r (state s))
               (if fired_counts (int_of_float e) (bells (state s)) = [] then None
                else Some (fired_counts (int_of_float e) (bells (state s))))])"
    by blast
  have e: "elapsed_sec (state (fst (step now Tick s))) = int_of_float e"
    unfolding st by (simp add: tick_state_def)
  show "bells (state (fst (step now Tick s))) =
        map (mark (elapsed_sec (state (fst (step now Tick s))))) (bells (state s))"
    unfolding e unfolding st by (simp add: tick_state_def)
  show "snd (step now Tick s) =
        [Emit (state (fst (step now Tick s)))
           (if fired_counts (elapsed_sec (state (fst (step now Tick s)))) (bells (state s)) = []
            then None
            else Some (fired_counts (elapsed_sec (state (fst (step now Tick s))))
                         (bells (state s))))]"
    unfolding e unfolding st by simp
next
  assume n: "\<not> tick_completes now s"
  then have nr: "loop_runs s \<Longrightarrow> \<exists>err. snd (timer_loop_body now s) = Inl err"
    by (cases "snd (timer_loop_body now s)") (simp_all add: tick_completes_def)
  show "bells (state (fst (step now Tick s))) = bells (state s)"
    using nr body_raises[of now s] by (cases "loop_runs s") (auto simp: split_beta)
  show "snd (step now Tick s) = []"
    using nr by (cases "loop_runs s") (auto simp: split_beta)
next
  assume "\<forall>ev \<in> set (map snd tr). \<not> clears_bell i ev"
  then show "fire_count i tr s \<le> 1" by (rule fire_count_le_1)
qed

lemma loop_runs_tr_huge_resumed:
  "loop_runs (fst (step 1041 (Cmd start_cmd) (run tr_huge init_sys)))"
  unfolding run_tr_huge by (simp add: start_cmd_def model_defs)

lemma tick_raises_tr_huge:
  "step 1046 Tick (fst (step 1041 (Cmd start_cmd) (run tr_huge init_sys))) =
     ((fst (step 1041 (Cmd start_cmd) (run tr_huge init_sys)))\<lparr> timer_task := Some False \<rparr>, [])"
proof -
  have "timer_loop_body 1046 (fst (step 1041 (Cmd start_cmd) (run tr_huge init_sys))) =
          (fst (step 1041 (Cmd start_cmd) (run tr_huge init_sys)), Inl OverflowError)"
    unfolding run_tr_huge
    by (simp add: start_cmd_def cmd_def dict_get_def Let_def broadcast_state_def
          init_state_def timer_loop_body_def float_of_int_huge float_of_int_0)
  with loop_runs_tr_huge_resumed show ?thesis by (simp del: run.simps)
qed

theorem tick_fires_due_bells_witness:
  "tick_completes 1060 (run tr_same init_sys) \<and>
   map at_sec (bells (state (run tr_same init_sys))) = [60, 60, 180] \<and>
   elapsed_sec (state (fst (step 1060 Tick (run tr_same init_sys)))) = 60 \<and>
   map triggered (bells (state (fst (step 1060 Tick (run tr_same init_sys))))) =
     [True, True, False] \<and>
   map fire_bells (snd (step 1060 Tick (run tr_same init_sys))) = [Some [1, 2]] \<and>
   \<not> tick_completes 1046 (fst (step 1041 (Cmd start_cmd) (run tr_huge init_sys))) \<and>
   snd (step 1046 Tick (fst (step 1041 (Cmd start_cmd) (run tr_huge init_sys)))) = [] \<and>
   \<not> clears_bell 0 Tick \<and>
   fire_count 0 [(1060, Tick), (1061, Tick)] (run tr_same init_sys) = 1"
proof -
  have a: "\<not> tick_completes 1046 (fst (step 1041 (Cmd start_cmd) (run tr_huge init_sys)))"
    using tick_raises_tr_huge
      tick_fires_due_bells[of 1046 "fst (step 1041 (Cmd start_cmd) (run tr_huge init_sys))" "[]" 0]
    by (auto simp del: step.simps run.simps)
  have b: "snd (step 1046 Tick (fst (step 1041 (Cmd start_cmd) (run tr_huge init_sys)))) = []"
    using tick_raises_tr_huge by (simp del: step.simps run.simps)
  have c: "tick_completes 1060 (run tr_same init_sys) \<and>
   map at_sec (bells (state (run tr_same init_sys))) = [60, 60, 180] \<and>
   elapsed_sec (state (fst (step 1060 Tick (run tr_same init_sys)))) = 60 \<and>
   map triggered (bells (state (fst (step 1060 Tick (run tr_same init_sys))))) =
     [True, True, False] \<and>
   map fire_bells (snd (step 1060 Tick (run tr_same init_sys))) = [Some [1, 2]] \<and>
   \<not> clears_bell 0 Tick \<and>
   fire_count 0 [(1060, Tick), (1061, Tick)] (run tr_same init_sys) = 1"
    using tick_fires_due_bells[of 1060 "run tr_same init_sys" "[(1060, Tick), (1061, Tick)]" 0]
    unfolding run_tr_same
    by (simp add: tick_completes_def clears_bell_def is_action_def bell_fires_def fires_def
          mark_def fired_counts_def model_defs scan_bells_eq)
  from a b c show ?thesis by blast
qed

section \<open>Resuming after a pause (C8)\<close>

text \<open>
  C8, as stated: after a resume at \<open>t0\<close> from a pause at \<open>elapsed_sec = E\<close>, every
  later tick stores \<open>elapsed_sec = E\<close> plus the whole seconds since \<open>t0\<close>. A
  \<open>set_total\<close> is accepted while the timer is paused, and a total of \<open>2 ^ 1024\<close>
  seconds does not convert to a float: the tick five seconds after the resume
  raises \<open>OverflowError\<close> in the difference of line 109, before anything is
  written, and \<open>elapsed_sec\<close> stays \<open>0\<close>.
\<close>

theorem resume_tick_raises_counterexample:
  "running (state (run tr_huge init_sys)) \<and> paused (state (run tr_huge init_sys)) \<and>
   elapsed_sec (state (run tr_huge init_sys)) = 0 \<and>
   elapsed_sec (state (fst (step 1046 Tick
     (fst (step 1041 (Cmd start_cmd) (run tr_huge init_sys)))))) \<noteq> 0 + \<lfloor>1046 - 1041 :: real\<rfloor>"
proof -
  have "elapsed_sec (state (fst (step 1046 Tick
     (fst (step 1041 (Cmd start_cmd) (run tr_huge init_sys)))))) = 0"
    unfolding tick_raises_tr_huge unfolding run_tr_huge
    by (simp add: start_cmd_def model_defs)
  then show ?thesis
    unfolding run_tr_huge by (simp add: init_state_def)
qed

text \<open>
  C8, amended: let the timer be paused with \<open>elapsed_sec = E \<ge> 0\<close>. No tick
  changes the state while it is paused. A \<open>start\<close> at \<open>t0\<close> sets the anchor to
  \<open>t0\<close> and the frozen offset to \<open>E\<close>; and every later tick, at \<open>now \<ge> t0\<close>, after
  any events other than \<open>pause\<close> and \<open>reset\<close>, that completes and computes its
  sum \<open>E + (now - t0)\<close> without rounding stores \<open>elapsed_sec = E + \<lfloor>now - t0\<rfloor>\<close>:
  the time spent paused does not count.
\<close>

theorem resume_excludes_paused_time:
  assumes "running (state s)" and "paused (state s)" and "0 \<le> elapsed_sec (state s)"
    and "dict_get data ''action'' JNull = JStr ''start''"
    and "\<forall>ev \<in> set (map snd tr). \<not> is_action ''pause'' ev \<and> \<not> is_action ''reset'' ev"
    and "t0 \<le> now"
    and "tick_completes now (run tr (fst (step t0 (Cmd data) s)))"
    and "fl (of_int (elapsed_sec (state s))) = Fin (of_int (elapsed_sec (state s)))"
    and "fl (now - t0) = Fin (now - t0)"
    and "fl (of_int (elapsed_sec (state s)) + (now - t0)) =
           Fin (of_int (elapsed_sec (state s)) + (now - t0))"
  shows "step tp Tick s = (s, []) \<and>
         start_wall (fst (step t0 (Cmd data) s)) = t0 \<and>
         elapsed_at_pause (fst (step t0 (Cmd data) s)) = elapsed_sec (state s) \<and>
         elapsed_sec (state (fst (step now Tick (run tr (fst (step t0 (Cmd data) s)))))) =
           elapsed_sec (state s) + \<lfloor>now - t0\<rfloor>"
proof (intro conjI)
  show "step tp Tick s = (s, [])"
    using assms(2) by (simp add: loop_runs_def)
  have a: "anchored t0 (elapsed_sec (state s)) (fst (step t0 (Cmd data) s))"
    using assms(1,2,4) by (rule resume_anchors)
  then show "start_wall (fst (step t0 (Cmd data) s)) = t0"
    and "elapsed_at_pause (fst (step t0 (Cmd data) s)) = elapsed_sec (state s)"
    by (simp_all add: anchored_def del: step.simps)
  from a assms(5)
  have b: "anchored t0 (elapsed_sec (state s)) (run tr (fst (step t0 (Cmd data) s)))"
    by (rule anchored_run)
  from assms(7) have r: "loop_runs (run tr (fst (step t0 (Cmd data) s)))"
    by (simp add: tick_completes_def)
  show "elapsed_sec (state (fst (step now Tick (run tr (fst (step t0 (Cmd data) s)))))) =
           elapsed_sec (state s) + \<lfloor>now - t0\<rfloor>"
    using b r assms(3,6,8,9,10,7) by (rule anchored_tick)
qed

theorem resume_excludes_paused_time_witness:
  "running (state (run tr_paused30 init_sys)) \<and> paused (state (run tr_paused30 init_sys)) \<and>
   elapsed_sec (state (run tr_paused30 init_sys)) = 30 \<and>
   dict_get start_cmd ''action'' JNull = JStr ''start'' \<and>
   \<not> is_action ''pause'' Tick \<and> \<not> is_action ''reset'' Tick \<and>
   \<not> is_action ''pause'' (Cmd [(''action'', JStr ''manual_bell'')]) \<and>
   \<not> is_action ''reset'' (Cmd [(''action'', JStr ''manual_bell'')]) \<and>
   (1041::real) \<le> 2087 / 2 \<and>
   tick_completes (2087 / 2)
     (run [(1042, Tick), (1043, Cmd [(''action'', JStr ''manual_bell'')])]
        (fst (step 1041 (Cmd start_cmd) (run tr_paused30 init_sys)))) \<and>
   fl (of_int 30) = Fin (of_int 30) \<and> fl (2087 / 2 - 1041) = Fin (2087 / 2 - 1041) \<and>
   fl (of_int 30 + (2087 / 2 - 1041)) = Fin (of_int 30 + (2087 / 2 - 1041)) \<and>
   step 1040 Tick (run tr_paused30 init_sys) = (run tr_paused30 init_sys, []) \<and>
   elapsed_sec (state (fst (step (2087 / 2) Tick
     (run [(1042, Tick), (1043, Cmd [(''action'', JStr ''manual_bell'')])]
        (fst (step 1041 (Cmd start_cmd) (run tr_paused30 init_sys))))))) = 32"
  using resume_excludes_paused_time[of "run tr_paused30 init_sys" start_cmd
      "[(1042, Tick), (1043, Cmd [(''action'', JStr ''manual_bell'')])]" 1041 "2087 / 2" 1040]
  unfolding run_tr_paused30
  by (simp add: start_cmd_def is_action_def tick_completes_def model_defs scan_bells_eq
        fired_counts_def)

section \<open>The manual bell (C9)\<close>

text \<open>
  C9: a \<open>manual_bell\<close> command with the integer count \<open>c\<close> changes no global (so
  no field of the timer state), emits exactly one event, the full state with
  \<open>fire_bells = [c]\<close>, and skips the trailing broadcast.
\<close>

theorem manual_bell_frame:
  assumes "dict_get data ''action'' JNull = JStr ''manual_bell''"
    and "map_of data ''count'' = Some (JInt c)"
  shows "cmd data now s = Inr (s, [Emit (state s) (Some [c])])"
  using assms by (simp add: cmd_def Let_def dict_get_def)

theorem manual_bell_frame_witness:
  "dict_get [(''action'', JStr ''manual_bell''), (''count'', JInt 2)] ''action'' JNull =
     JStr ''manual_bell'' \<and>
   map_of [(''action'', JStr ''manual_bell''), (''count'', JInt 2)] ''count'' = Some (JInt 2) \<and>
   step 1001 (Cmd [(''action'', JStr ''manual_bell''), (''count'', JInt 2)]) (run tr_start init_sys) =
     (run tr_start init_sys, [Emit (state (run tr_start init_sys)) (Some [2])])"
  using manual_bell_frame[of "[(''action'', JStr ''manual_bell''), (''count'', JInt 2)]" 2
      1001 "run tr_start init_sys"]
  by (simp add: dict_get_def)

end
